theory Spec2Isabelle
  imports Complex_Main "HOL-Library.Multiset"
begin

section \<open>Time to hire and cost per hire (app.py)\<close>

text \<open>
  The dashboard derives two tables from three data frames: the bracket distribution of
  \<^verbatim>\<open>compute_time_to_hire\<close> (the share of hires that close k months after the
  application month), the per-month-name table \<^verbatim>\<open>month_wise_brackets\<close> built from it,
  and the rows of the cost calculator (\<^verbatim>\<open>cac_rows\<close>), which weight the spend of the
  twelve months before a hire month by that table.

  Conventions of the embedding:
  \<^item> a data frame is the list of its rows, in row order;
  \<^item> Python integers are \<open>int\<close>; a sum over an int64 column wraps around;
  \<^item> a finite double is a rational number (\<open>rat\<close>); the model does not compute the
    rounding of an operation on doubles: the quotient of two integers in
    \<^verbatim>\<open>compute_time_to_hire\<close> is kept exact, and the arithmetic of the cost calculator is
    a parameter; infinities and NaN are outside the model;
  \<^item> a month-start timestamp (the result of \<^verbatim>\<open>.dt.to_period("M").dt.to_timestamp()\<close>) is the
    ordinal of its month, counted from January 1970 as pandas numbers monthly periods;
    comparing two such timestamps compares the ordinals and \<^verbatim>\<open>pd.DateOffset(months=k)\<close>
    adds k to the ordinal;
  \<^item> a raise is a value: functions that divide or index return \<open>py_error + 'a\<close>.
\<close>

subsection \<open>Dates\<close>

datatype timestamp = Timestamp (ts_year: int) (ts_month: nat) (ts_day: nat)

type_synonym month = int

text \<open>The month-start timestamp of year \<open>y\<close>, month \<open>m\<close> (1 = January).\<close>

definition month_start :: "int \<Rightarrow> nat \<Rightarrow> month" where
  "month_start y m = 12 * (y - 1970) + int m - 1"

text \<open>\<^verbatim>\<open>.dt.to_period("M").dt.to_timestamp()\<close>: the day is dropped.\<close>

definition to_period_M :: "timestamp \<Rightarrow> month" where
  "to_period_M t = month_start (ts_year t) (ts_month t)"

definition month_lookup :: "string list" where
  "month_lookup = [''Jan'', ''Feb'', ''Mar'', ''Apr'', ''May'', ''Jun'',
                   ''Jul'', ''Aug'', ''Sep'', ''Oct'', ''Nov'', ''Dec'']"

text \<open>\<^verbatim>\<open>strftime("%b")\<close> of a month-start timestamp (English month abbreviations).\<close>

definition strftime_b :: "month \<Rightarrow> string" where
  "strftime_b m = month_lookup ! nat (m mod 12)"

subsection \<open>Errors\<close>

datatype py_error = ZeroDivisionError | IndexError

text \<open>
  Python's \<^verbatim>\<open>a / b\<close> on two integers: it raises on a zero divisor; otherwise the code gets
  the double nearest to the quotient and the model keeps the quotient itself. What is
  stated of a single entry below (it is 0, it is 1, it lies in \<open>[0, 1]\<close>) also holds of the
  nearest double; nothing is stated of sums of entries.
\<close>

definition py_truediv :: "rat \<Rightarrow> rat \<Rightarrow> py_error + rat" where
  "py_truediv a b = (if b = 0 then Inl ZeroDivisionError else Inr (a / b))"

text \<open>Python's \<^verbatim>\<open>xs[i]\<close> for an index that comes from \<^verbatim>\<open>range\<close>.\<close>

definition py_getitem :: "'a list \<Rightarrow> nat \<Rightarrow> py_error + 'a" where
  "py_getitem xs i = (if i < length xs then Inr (xs ! i) else Inl IndexError)"

text \<open>A list comprehension whose element expression may raise: the first raise wins.\<close>

fun comprehension :: "('a \<Rightarrow> py_error + 'b) \<Rightarrow> 'a list \<Rightarrow> py_error + 'b list" where
  "comprehension f [] = Inr []"
| "comprehension f (x # xs) =
     (case f x of
        Inl e \<Rightarrow> Inl e
      | Inr y \<Rightarrow> (case comprehension f xs of Inl e \<Rightarrow> Inl e | Inr ys \<Rightarrow> Inr (y # ys)))"

subsection \<open>Data frames\<close>

text \<open>
  A row of \<^verbatim>\<open>filtered_df\<close>. \<^verbatim>\<open>load_main_data\<close> drops rows without an application date, so
  that column is never null; \<^verbatim>\<open>successful_date\<close> is null for an applicant who was not hired.
  The segment columns are read by the sidebar filter only and are left out.
\<close>

record app_row =
  application_date :: timestamp
  successful_date :: "timestamp option"

text \<open>\<^verbatim>\<open>Series.unique()\<close>: the distinct values in order of first appearance.\<close>

definition unique :: "'a list \<Rightarrow> 'a list" where
  "unique xs = rev (remdups (rev xs))"

subsection \<open>compute_time_to_hire\<close>

text \<open>
  \<^verbatim>\<open>num_months\<close> is a count (the slider value 1 to 12, or the constant 12) and is a \<open>nat\<close>:
  \<^verbatim>\<open>[0] * num_months\<close> is \<open>replicate num_months 0\<close> and \<^verbatim>\<open>range(num_months)\<close> is
  \<open>[0..<num_months]\<close>.

  Lines 70 to 72: the rows with a hire date, each reduced to the two columns the function
  adds and reads afterwards, \<open>(application_month, hire_month)\<close>.
\<close>

definition hired_months :: "app_row list \<Rightarrow> (month \<times> month) list" where
  "hired_months df =
     List.map_filter
       (\<lambda>r. case successful_date r of
              None \<Rightarrow> None
            | Some h \<Rightarrow> Some (to_period_M (application_date r), to_period_M h)) df"

text \<open>
  \<^verbatim>\<open>df.groupby('application_month')\<close>: one group per distinct key, keys ascending, each group
  holding the rows of that key in row order.
\<close>

definition groupby_application_month ::
  "(month \<times> month) list \<Rightarrow> (month \<times> (month \<times> month) list) list" where
  "groupby_application_month df =
     map (\<lambda>c. (c, filter (\<lambda>r. fst r = c) df)) (sort (unique (map fst df)))"

text \<open>The inner loop over \<^verbatim>\<open>range(num_months)\<close>, threading \<^verbatim>\<open>bracket_counts\<close>.\<close>

fun offset_loop :: "month \<Rightarrow> (month \<times> month) list \<Rightarrow> nat list \<Rightarrow> int list \<Rightarrow> int list" where
  "offset_loop cohort_month group_df [] bracket_counts = bracket_counts"
| "offset_loop cohort_month group_df (offset # offsets) bracket_counts =
     (let start = cohort_month + int offset;
          end_month = cohort_month + int (offset + 1);
          count = int (length (filter (\<lambda>r. start \<le> snd r \<and> snd r < end_month) group_df))
      in offset_loop cohort_month group_df offsets
           (bracket_counts[offset := bracket_counts ! offset + count]))"

text \<open>The outer loop over the groups.\<close>

fun cohort_loop :: "(month \<times> (month \<times> month) list) list \<Rightarrow> nat \<Rightarrow> int list \<Rightarrow> int list" where
  "cohort_loop [] num_months bracket_counts = bracket_counts"
| "cohort_loop ((cohort_month, group_df) # groups) num_months bracket_counts =
     cohort_loop groups num_months
       (offset_loop cohort_month group_df [0..<num_months] bracket_counts)"

definition bracket_counts_of :: "app_row list \<Rightarrow> nat \<Rightarrow> int list" where
  "bracket_counts_of df num_months =
     cohort_loop (groupby_application_month (hired_months df)) num_months
       (replicate num_months 0)"

definition compute_time_to_hire :: "app_row list \<Rightarrow> nat \<Rightarrow> py_error + rat list" where
  "compute_time_to_hire df num_months =
     (let total_hires = int (length (hired_months df))
      in comprehension
           (\<lambda>c. if total_hires > 0 then py_truediv (of_int c) (of_int total_hires) else Inr 0)
           (bracket_counts_of df num_months))"

subsection \<open>month_wise_brackets\<close>

text \<open>Line 43: \<^verbatim>\<open>df['month_name'] = df['application_date'].dt.strftime("%b")\<close>.\<close>

definition month_name :: "app_row \<Rightarrow> string" where
  "month_name r = strftime_b (to_period_M (application_date r))"

text \<open>
  Lines 85 to 88: the loop over \<^verbatim>\<open>month_lookup\<close> that fills the dictionary. The horizon is
  the constant 12 of the source.
\<close>

fun month_loop ::
  "app_row list \<Rightarrow> string list \<Rightarrow> (string \<rightharpoonup> rat list) \<Rightarrow> py_error + (string \<rightharpoonup> rat list)" where
  "month_loop filtered_df [] table = Inr table"
| "month_loop filtered_df (m # months) table =
     (let month_data = filter (\<lambda>r. month_name r = m) filtered_df
      in case (if month_data \<noteq> [] then compute_time_to_hire month_data 12
               else Inr (replicate 12 0)) of
           Inl e \<Rightarrow> Inl e
         | Inr v \<Rightarrow> month_loop filtered_df months (table(m \<mapsto> v)))"

definition month_wise_brackets :: "app_row list \<Rightarrow> py_error + (string \<rightharpoonup> rat list)" where
  "month_wise_brackets filtered_df = month_loop filtered_df month_lookup Map.empty"

subsection \<open>The cost calculator (cac_rows)\<close>

text \<open>
  \<^verbatim>\<open>hire_df\<close> after line 138 and \<^verbatim>\<open>spend_df\<close> after line 113, reduced to the columns the
  calculator reads. The hire month may be null (the loop drops nulls). \<^verbatim>\<open>hires\<close> is an int64
  column (\<^verbatim>\<open>COUNT(*)\<close>).
\<close>

record hire_row =
  hire_month :: "month option"
  hires :: int

record spend_row =
  spend_month :: month
  monthly_spend :: rat

text \<open>
  An output row. \<open>Hire_Month\<close> is the month itself rather than its \<^verbatim>\<open>'%Y-%m'\<close> string;
  \<open>CAC = None\<close> is the string \<^verbatim>\<open>'N/A'\<close>.
\<close>

record cac_row =
  Hire_Month :: month
  Total_Hires :: int
  Weighted_Spend :: rat
  CAC :: "rat option"

text \<open>\<^verbatim>\<open>Series.dropna()\<close>.\<close>

definition dropna :: "'a option list \<Rightarrow> 'a list" where
  "dropna xs = List.map_filter id xs"

text \<open>
  The arithmetic of the calculator on doubles: the running sum \<^verbatim>\<open>weighted_spend += x\<close>, the
  product \<^verbatim>\<open>spend * weight\<close>, the quotient \<^verbatim>\<open>weighted_spend / hires\<close> by a nonzero integer,
  and \<^verbatim>\<open>round(x, 2)\<close>. Each returns a rounded result that depends on the platform's
  doubles, so the four operations are parameters of the model, and every statement about
  \<open>cac_rows\<close> holds for all of them.
\<close>

record float_ops =
  fadd :: "rat \<Rightarrow> rat \<Rightarrow> rat"
  fmul :: "rat \<Rightarrow> rat \<Rightarrow> rat"
  fdiv :: "rat \<Rightarrow> int \<Rightarrow> rat"
  round2 :: "rat \<Rightarrow> rat"

text \<open>\<^verbatim>\<open>weighted_spend / hires\<close>: a zero divisor is an error.\<close>

definition float_truediv :: "float_ops \<Rightarrow> rat \<Rightarrow> int \<Rightarrow> py_error + rat" where
  "float_truediv ops a n = (if n = 0 then Inl ZeroDivisionError else Inr (fdiv ops a n))"

text \<open>The value of an integer in int64: two's complement wrap-around.\<close>

definition int64 :: "int \<Rightarrow> int" where
  "int64 x = (x + 2 ^ 63) mod 2 ^ 64 - 2 ^ 63"

text \<open>
  Line 177: \<^verbatim>\<open>int(hire_df[hire_df['hire_month'] == hire_month]['hires'].sum())\<close>. The sum of
  the int64 column wraps around.
\<close>

definition hires_in :: "hire_row list \<Rightarrow> month \<Rightarrow> int" where
  "hires_in hire_df hm =
     int64 (sum_list (map hires (filter (\<lambda>r. hire_month r = Some hm) hire_df)))"

text \<open>
  Line 181: \<^verbatim>\<open>spend_df[spend_df['spend_month'] == spend_month]['monthly_spend'].sum()\<close>. After
  the \<^verbatim>\<open>groupby\<close> of line 113 at most one row matches, so the sum is that row's value or 0.
\<close>

definition spend_in :: "spend_row list \<Rightarrow> month \<Rightarrow> rat" where
  "spend_in spend_df sm = sum_list (map monthly_spend (filter (\<lambda>r. spend_month r = sm) spend_df))"

text \<open>Lines 178 to 184: the loop over \<^verbatim>\<open>range(12)\<close>, threading \<^verbatim>\<open>weighted_spend\<close>.\<close>

fun lookback_loop ::
  "float_ops \<Rightarrow> month \<Rightarrow> spend_row list \<Rightarrow> (string \<rightharpoonup> rat list) \<Rightarrow> nat list \<Rightarrow> rat
     \<Rightarrow> py_error + rat" where
  "lookback_loop ops hm spend_df table [] weighted_spend = Inr weighted_spend"
| "lookback_loop ops hm spend_df table (i # rest) weighted_spend =
     (let sm = hm - int i;
          spend = spend_in spend_df sm;
          name = strftime_b sm
      in case py_getitem (case table name of None \<Rightarrow> replicate 12 0 | Some v \<Rightarrow> v) i of
           Inl e \<Rightarrow> Inl e
         | Inr weight \<Rightarrow>
             lookback_loop ops hm spend_df table rest
               (fadd ops weighted_spend (fmul ops spend weight)))"

text \<open>Lines 176 to 191: the loop over the hire months, threading the list of rows.\<close>

fun cac_loop ::
  "float_ops \<Rightarrow> hire_row list \<Rightarrow> spend_row list \<Rightarrow> (string \<rightharpoonup> rat list) \<Rightarrow> month list
     \<Rightarrow> cac_row list \<Rightarrow> py_error + cac_row list" where
  "cac_loop ops hire_df spend_df table [] rows = Inr rows"
| "cac_loop ops hire_df spend_df table (hm # rest) rows =
     (let n = hires_in hire_df hm
      in case lookback_loop ops hm spend_df table [0..<12] 0 of
           Inl e \<Rightarrow> Inl e
         | Inr weighted_spend \<Rightarrow>
             (case (if n > 0
                    then (case float_truediv ops weighted_spend n of
                            Inl e \<Rightarrow> Inl e
                          | Inr q \<Rightarrow> Inr (Some q))
                    else Inr None) of
                Inl e \<Rightarrow> Inl e
              | Inr cac \<Rightarrow>
                  cac_loop ops hire_df spend_df table rest
                    (rows @ [\<lparr>Hire_Month = hm, Total_Hires = n,
                              Weighted_Spend = round2 ops weighted_spend,
                              CAC = map_option (round2 ops) cac\<rparr>])))"

definition cac_rows ::
  "float_ops \<Rightarrow> hire_row list \<Rightarrow> spend_row list \<Rightarrow> (string \<rightharpoonup> rat list)
     \<Rightarrow> py_error + cac_row list" where
  "cac_rows ops hire_df spend_df table =
     cac_loop ops hire_df spend_df table (sort (unique (dropna (map hire_month hire_df)))) []"

subsection \<open>Notions used to state the properties\<close>

text \<open>The rows that line 70 keeps: those with a hire date.\<close>

definition hired_rows :: "app_row list \<Rightarrow> app_row list" where
  "hired_rows df = filter (\<lambda>r. successful_date r \<noteq> None) df"

text \<open>The pair \<open>(application_month, hire_month)\<close> of a row (the second is only read for hired rows).\<close>

definition months_of :: "app_row \<Rightarrow> month \<times> month" where
  "months_of r = (to_period_M (application_date r),
                  (case successful_date r of None \<Rightarrow> 0 | Some h \<Rightarrow> to_period_M h))"

text \<open>The hire month is exactly \<open>k\<close> months after the application month.\<close>

definition in_bracket :: "nat \<Rightarrow> month \<times> month \<Rightarrow> bool" where
  "in_bracket k r = (snd r - fst r = int k)"

text \<open>The hire month is at an offset in \<open>[0, n)\<close> of the application month.\<close>

definition in_window :: "nat \<Rightarrow> month \<times> month \<Rightarrow> bool" where
  "in_window n p = (0 \<le> snd p - fst p \<and> snd p - fst p < int n)"

text \<open>
  A row whose hire date, if it has one, lies in the horizon window: not before the
  application month and fewer than \<open>horizon\<close> months after it.
\<close>

definition within_horizon :: "nat \<Rightarrow> app_row \<Rightarrow> bool" where
  "within_horizon horizon r =
     (case successful_date r of
        None \<Rightarrow> True
      | Some h \<Rightarrow> to_period_M (application_date r) \<le> to_period_M h \<and>
                  to_period_M h < to_period_M (application_date r) + int horizon)"

text \<open>
  The algorithm as the specification words it: discard the rows without hire date, count
  the rest (\<open>totalHires\<close>), group them by application month, count per cohort key \<open>c\<close> and
  offset \<open>k\<close> the rows whose hire month lies in \<open>[c + k, c + (k + 1))\<close>, add these counts up
  over the cohorts, and divide by \<open>totalHires\<close> (0 for every bracket when it is 0).
\<close>

definition spec_cohort_count :: "app_row list \<Rightarrow> month \<Rightarrow> nat \<Rightarrow> nat" where
  "spec_cohort_count remaining c k =
     length (filter (\<lambda>r. case successful_date r of
                            None \<Rightarrow> False
                          | Some h \<Rightarrow> c + int k \<le> to_period_M h \<and> to_period_M h < c + int (k + 1))
               (filter (\<lambda>r. to_period_M (application_date r) = c) remaining))"

definition computeBrackets_spec :: "app_row list \<Rightarrow> nat \<Rightarrow> rat list" where
  "computeBrackets_spec records horizon =
     (let remaining = filter (\<lambda>r. successful_date r \<noteq> None) records;
          totalHires = length remaining;
          cohort_keys = remdups (map (\<lambda>r. to_period_M (application_date r)) remaining);
          accumulated = (\<lambda>k. \<Sum>c\<leftarrow>cohort_keys. spec_cohort_count remaining c k)
      in map (\<lambda>k. if totalHires = 0 then 0 else of_nat (accumulated k) / of_nat totalHires)
           [0..<horizon])"

text \<open>
  Ten applications made in a January, six without hire date, the others hired in the month
  after their application month.
\<close>

definition ten_january_four_hired :: "app_row list \<Rightarrow> bool" where
  "ten_january_four_hired df =
     (length df = 10 \<and>
      list_all (\<lambda>r. month_name r = ''Jan'') df \<and>
      length (filter (\<lambda>r. successful_date r = None) df) = 6 \<and>
      list_all (\<lambda>r. case successful_date r of
                       None \<Rightarrow> True
                     | Some h \<Rightarrow> to_period_M h = to_period_M (application_date r) + 1) df)"

text \<open>The list that \<open>compute_time_to_hire\<close> returns, in closed form.\<close>

definition bracket_fractions :: "app_row list \<Rightarrow> nat \<Rightarrow> rat list" where
  "bracket_fractions df n =
     map (\<lambda>k. if 0 < length (hired_months df)
               then of_nat (length (filter (in_bracket k) (hired_months df))) /
                    of_nat (length (hired_months df))
               else 0) [0..<n]"

text \<open>
  A table the calculator can index without \<^verbatim>\<open>IndexError\<close>: every list stored under a
  month name has at least 12 entries. A missing key is harmless, since
  \<^verbatim>\<open>.get(month_name, [0]*12)\<close> supplies a list of 12 zeros.
\<close>

definition table_ok :: "(string \<rightharpoonup> rat list) \<Rightarrow> bool" where
  "table_ok table =
     list_all (\<lambda>m. case table m of None \<Rightarrow> True | Some ws \<Rightarrow> 12 \<le> length ws) month_lookup"

text \<open>The weight \<^verbatim>\<open>month_wise_brackets.get(name, [0]*12)[i]\<close> for \<open>i < 12\<close> in such a table.\<close>

definition weight_at :: "(string \<rightharpoonup> rat list) \<Rightarrow> string \<Rightarrow> nat \<Rightarrow> rat" where
  "weight_at table name i = (case table name of None \<Rightarrow> 0 | Some ws \<Rightarrow> ws ! i)"

text \<open>
  The weighted spend of a hire month: starting from 0, for \<open>i = 0, \<dots>, 11\<close> in this order,
  the product of the spend of the month \<open>i\<close> months earlier and the weight stored under
  that month's name at index \<open>i\<close> is added.
\<close>

definition attributed_spend ::
  "float_ops \<Rightarrow> spend_row list \<Rightarrow> (string \<rightharpoonup> rat list) \<Rightarrow> month \<Rightarrow> rat" where
  "attributed_spend ops spend_df table hm =
     foldl (\<lambda>acc i. fadd ops acc
                      (fmul ops (spend_in spend_df (hm - int i))
                                (weight_at table (strftime_b (hm - int i)) i)))
       0 [0..<12]"

text \<open>The row that the calculator appends for a hire month, in closed form.\<close>

definition cac_row_of ::
  "float_ops \<Rightarrow> hire_row list \<Rightarrow> spend_row list \<Rightarrow> (string \<rightharpoonup> rat list) \<Rightarrow> month
     \<Rightarrow> cac_row" where
  "cac_row_of ops hire_df spend_df table hm =
     \<lparr>Hire_Month = hm,
      Total_Hires = hires_in hire_df hm,
      Weighted_Spend = round2 ops (attributed_spend ops spend_df table hm),
      CAC = (if 0 < hires_in hire_df hm
             then Some (round2 ops (fdiv ops (attributed_spend ops spend_df table hm)
                                             (hires_in hire_df hm)))
             else None)\<rparr>"

text \<open>The hire months the loop of line 176 visits, in order.\<close>

definition hire_months :: "hire_row list \<Rightarrow> month list" where
  "hire_months hire_df = sort (unique (dropna (map hire_month hire_df)))"

text \<open>The hires of a month added up as integers, before the int64 wrap-around.\<close>

definition hires_sum :: "hire_row list \<Rightarrow> month \<Rightarrow> int" where
  "hires_sum hire_df hm = sum_list (map hires (filter (\<lambda>r. hire_month r = Some hm) hire_df))"

text \<open>
  Exact arithmetic, the arithmetic in which the specification works its scenarios out: sums,
  products and quotients are not rounded, and rounding to two decimals takes the nearest
  multiple of 1/100, ties to even. It is one choice of the operations; the doubles of the
  program are another.
\<close>

definition round_half_even :: "rat \<Rightarrow> int" where
  "round_half_even x =
     (let f = \<lfloor>x\<rfloor>; d = x - of_int f
      in if d < 1 / 2 then f else if 1 / 2 < d then f + 1 else if even f then f else f + 1)"

definition exact_ops :: float_ops where
  "exact_ops =
     \<lparr>fadd = (\<lambda>a b. a + b),
      fmul = (\<lambda>a b. a * b),
      fdiv = (\<lambda>a n. a / of_int n),
      round2 = (\<lambda>x. of_int (round_half_even (x * 100)) / 100)\<rparr>"

subsection \<open>Scenario data\<close>

definition january_row :: "timestamp option \<Rightarrow> app_row" where
  "january_row h = \<lparr>application_date = Timestamp 2024 1 15, successful_date = h\<rparr>"

definition scenario_A :: "app_row list" where
  "scenario_A =
     replicate 4 (january_row (Some (Timestamp 2024 2 20))) @ replicate 6 (january_row None)"

definition zero_table :: "string \<rightharpoonup> rat list" where
  "zero_table = map_of (map (\<lambda>m. (m, replicate 12 0)) month_lookup)"

definition scenario_C_table :: "string \<rightharpoonup> rat list" where
  "scenario_C_table =
     zero_table(''Jan'' \<mapsto> (replicate 12 0)[2 := 1 / 10],
                ''Feb'' \<mapsto> (replicate 12 0)[1 := 3 / 10],
                ''Mar'' \<mapsto> (replicate 12 0)[0 := 1 / 2])"

definition scenario_C_spend :: "spend_row list" where
  "scenario_C_spend =
     [\<lparr>spend_month = month_start 2024 1, monthly_spend = 100\<rparr>,
      \<lparr>spend_month = month_start 2024 2, monthly_spend = 200\<rparr>,
      \<lparr>spend_month = month_start 2024 3, monthly_spend = 300\<rparr>]"

definition scenario_C_hires :: "hire_row list" where
  "scenario_C_hires = [\<lparr>hire_month = Some (month_start 2024 3), hires = 10\<rparr>]"

text \<open>A hire month with zero hires whose only spend row gets weight zero.\<close>

definition scenario_D_hires :: "hire_row list" where
  "scenario_D_hires = [\<lparr>hire_month = Some (month_start 2024 3), hires = 0\<rparr>]"

definition scenario_D_spend :: "spend_row list" where
  "scenario_D_spend = [\<lparr>spend_month = month_start 2024 3, monthly_spend = 500\<rparr>]"

text \<open>Hire rows of two months, out of order, one month on two rows.\<close>

definition two_hire_rows :: "hire_row list" where
  "two_hire_rows =
     [\<lparr>hire_month = Some (month_start 2024 3), hires = 4\<rparr>,
      \<lparr>hire_month = Some (month_start 2024 2), hires = 6\<rparr>,
      \<lparr>hire_month = Some (month_start 2024 3), hires = 6\<rparr>]"

text \<open>Two rows of one month whose hires add up to \<open>2 ^ 63\<close>, one more than int64 holds.\<close>

definition overflow_rows :: "hire_row list" where
  "overflow_rows =
     [\<lparr>hire_month = Some (month_start 2024 3), hires = 2 ^ 62\<rparr>,
      \<lparr>hire_month = Some (month_start 2024 3), hires = 2 ^ 62\<rparr>]"

section \<open>The bracket distribution\<close>

lemma comprehension_total:
  "(\<And>x. x \<in> set xs \<Longrightarrow> f x = Inr (g x)) \<Longrightarrow> comprehension f xs = Inr (map g xs)"
  by (induction xs) simp_all

lemma length_offset_loop [simp]:
  "length (offset_loop c g offs bc) = length bc"
  by (induction offs arbitrary: bc) (simp_all add: Let_def)

lemma offset_loop_nth:
  "distinct offs \<Longrightarrow> k < length bc \<Longrightarrow>
   offset_loop c g offs bc ! k =
     bc ! k + (if k \<in> set offs
               then int (length (filter (\<lambda>r. c + int k \<le> snd r \<and> snd r < c + int (k + 1)) g))
               else 0)"
proof (induction offs arbitrary: bc)
  case Nil
  then show ?case by simp
next
  case (Cons a offs)
  then show ?case
    by (cases "a = k") (auto simp add: Let_def)
qed

lemma length_cohort_loop [simp]:
  "length (cohort_loop gs n bc) = length bc"
  by (induction gs n bc rule: cohort_loop.induct) simp_all

lemma cohort_loop_nth:
  "k < n \<Longrightarrow> length bc = n \<Longrightarrow>
   cohort_loop gs n bc ! k =
     bc ! k + (\<Sum>(c, g) \<leftarrow> gs.
                 int (length (filter (\<lambda>r. c + int k \<le> snd r \<and> snd r < c + int (k + 1)) g)))"
proof (induction gs n bc rule: cohort_loop.induct)
  case (1 n bc)
  then show ?case by simp
next
  case (2 c g gs n bc)
  then show ?case by (simp add: offset_loop_nth)
qed

lemma indicator_sum_distinct:
  "distinct ks \<Longrightarrow>
   (\<Sum>c\<leftarrow>ks. if a = c \<and> P then 1 else 0) = (if a \<in> set ks \<and> P then (1::nat) else 0)"
  by (induction ks) auto

lemma grouped_count:
  "distinct ks \<Longrightarrow>
   (\<Sum>c\<leftarrow>ks. length (filter (\<lambda>r. Q c r) (filter (\<lambda>r. f r = c) xs))) =
   length (filter (\<lambda>r. f r \<in> set ks \<and> Q (f r) r) xs)"
proof (induction xs)
  case Nil
  then show ?case by simp
next
  case (Cons x xs)
  have "(\<Sum>c\<leftarrow>ks. length (filter (\<lambda>r. Q c r) (filter (\<lambda>r. f r = c) (x # xs)))) =
        (\<Sum>c\<leftarrow>ks. (if f x = c \<and> Q (f x) x then 1 else 0) +
                   length (filter (\<lambda>r. Q c r) (filter (\<lambda>r. f r = c) xs)))"
    by (rule arg_cong [where f = sum_list], rule map_cong) auto
  also have "\<dots> = (\<Sum>c\<leftarrow>ks. if f x = c \<and> Q (f x) x then 1 else 0) +
        (\<Sum>c\<leftarrow>ks. length (filter (\<lambda>r. Q c r) (filter (\<lambda>r. f r = c) xs)))"
    by (simp add: sum_list_addf)
  also have "\<dots> = (if f x \<in> set ks \<and> Q (f x) x then 1 else 0) +
        length (filter (\<lambda>r. f r \<in> set ks \<and> Q (f r) r) xs)"
    using Cons by (simp only: indicator_sum_distinct)
  finally show ?case by simp
qed

lemma int_sum_list: "(\<Sum>x\<leftarrow>xs. int (f x)) = int (\<Sum>x\<leftarrow>xs. f x)"
  by (induction xs) simp_all

lemma set_unique [simp]: "set (unique xs) = set xs"
  by (simp add: unique_def)

lemma distinct_unique [simp]: "distinct (unique xs)"
  by (simp add: unique_def)

lemma bracket_counts_nth:
  assumes "k < n"
  shows "cohort_loop (groupby_application_month hs) n (replicate n 0) ! k =
         int (length (filter (in_bracket k) hs))"
proof -
  let ?ks = "sort (unique (map fst hs))"
  have "cohort_loop (groupby_application_month hs) n (replicate n 0) ! k =
        (\<Sum>c\<leftarrow>?ks. int (length (filter (\<lambda>r. c + int k \<le> snd r \<and> snd r < c + int (k + 1))
                                     (filter (\<lambda>r. fst r = c) hs))))"
    using assms by (simp add: cohort_loop_nth groupby_application_month_def o_def)
  also have "\<dots> = int (length (filter (\<lambda>r. fst r \<in> set ?ks \<and>
                       (fst r + int k \<le> snd r \<and> snd r < fst r + int (k + 1))) hs))"
    by (simp only: int_sum_list, subst grouped_count) simp_all
  also have "\<dots> = int (length (filter (in_bracket k) hs))"
    by (rule arg_cong [where f = "\<lambda>xs. int (length xs)"], rule filter_cong)
       (auto simp add: in_bracket_def)
  finally show ?thesis .
qed

lemma bracket_counts_of_eq:
  "bracket_counts_of df n =
     map (\<lambda>k. int (length (filter (in_bracket k) (hired_months df)))) [0..<n]"
  by (rule nth_equalityI) (simp_all add: bracket_counts_of_def bracket_counts_nth)

lemma hired_months_map: "hired_months df = map months_of (hired_rows df)"
  by (induction df)
     (simp_all add: hired_months_def hired_rows_def months_of_def split: option.splits)

lemma length_hired_months: "length (hired_months df) = length (hired_rows df)"
  by (simp add: hired_months_map)

lemma compute_time_to_hire_eq:
  "compute_time_to_hire df n =
     Inr (map (\<lambda>k. if 0 < length (hired_months df)
                    then of_nat (length (filter (in_bracket k) (hired_months df))) /
                         of_nat (length (hired_months df))
                    else 0) [0..<n])"
proof -
  let ?T = "int (length (hired_months df))"
  have "comprehension
          (\<lambda>c. if ?T > 0 then py_truediv (of_int c) (of_int ?T) else Inr 0)
          (bracket_counts_of df n) =
        Inr (map (\<lambda>c. if ?T > 0 then of_int c / of_int ?T else 0) (bracket_counts_of df n))"
    by (rule comprehension_total) (simp add: py_truediv_def)
  then show ?thesis
    by (simp add: compute_time_to_hire_def bracket_counts_of_eq o_def)
qed

lemma window_count_Suc:
  "length (filter (in_window (Suc n)) hs) =
   length (filter (in_window n) hs) + length (filter (in_bracket n) hs)"
  by (induction hs) (auto simp add: in_bracket_def in_window_def)

lemma bracket_counts_sum:
  "(\<Sum>k\<leftarrow>[0..<n]. length (filter (in_bracket k) hs)) = length (filter (in_window n) hs)"
proof (induction n)
  case 0
  show ?case by (simp add: in_window_def)
next
  case (Suc n)
  then show ?case by (simp add: window_count_Suc)
qed

lemma length_filter_eq_iff:
  "length (filter P xs) = length xs \<longleftrightarrow> (\<forall>x\<in>set xs. P x)"
proof (induction xs)
  case Nil
  then show ?case by simp
next
  case (Cons x xs)
  show ?case
  proof (cases "P x")
    case True
    with Cons show ?thesis by simp
  next
    case False
    have "length (filter P xs) < Suc (length xs)"
      by (simp add: le_imp_less_Suc)
    with False show ?thesis by simp
  qed
qed

lemma in_window_months_of:
  "r \<in> set (hired_rows df) \<Longrightarrow> in_window n (months_of r) \<longleftrightarrow> within_horizon n r"
  by (auto simp add: in_window_def months_of_def within_horizon_def hired_rows_def)

lemma all_in_window_iff:
  "(\<forall>p\<in>set (hired_months df). in_window n p) \<longleftrightarrow> list_all (within_horizon n) df"
proof -
  have "(\<forall>p\<in>set (hired_months df). in_window n p) \<longleftrightarrow>
        (\<forall>r\<in>set (hired_rows df). within_horizon n r)"
    by (simp add: hired_months_map in_window_months_of)
  also have "\<dots> \<longleftrightarrow> (\<forall>r\<in>set df. within_horizon n r)"
    by (auto simp add: hired_rows_def within_horizon_def split: option.splits)
  finally show ?thesis by (simp add: list_all_iff)
qed

lemma spec_accumulated:
  "(\<Sum>c\<leftarrow>remdups (map (\<lambda>r. to_period_M (application_date r)) (hired_rows df)).
      spec_cohort_count (hired_rows df) c k) =
   length (filter (in_bracket k) (hired_months df))"
proof -
  let ?f = "\<lambda>r. to_period_M (application_date r)"
  let ?Q = "\<lambda>c r. case successful_date r of
                     None \<Rightarrow> False
                   | Some h \<Rightarrow> c + int k \<le> to_period_M h \<and> to_period_M h < c + int (k + 1)"
  have "(\<Sum>c\<leftarrow>remdups (map ?f (hired_rows df)). spec_cohort_count (hired_rows df) c k) =
        length (filter (\<lambda>r. ?f r \<in> set (remdups (map ?f (hired_rows df))) \<and> ?Q (?f r) r)
                  (hired_rows df))"
    unfolding spec_cohort_count_def by (rule grouped_count) simp
  also have "\<dots> = length (filter (\<lambda>r. in_bracket k (months_of r)) (hired_rows df))"
    by (rule arg_cong [where f = length], rule filter_cong)
       (auto simp add: in_bracket_def months_of_def hired_rows_def split: option.splits)
  also have "\<dots> = length (filter (in_bracket k) (hired_months df))"
    by (simp add: hired_months_map filter_map o_def)
  finally show ?thesis .
qed

lemma fraction_bounds:
  "0 < t \<Longrightarrow> c \<le> t \<Longrightarrow> 0 \<le> (of_nat c :: rat) / of_nat t \<and> (of_nat c :: rat) / of_nat t \<le> 1"
  by simp

subsection \<open>Results on compute_time_to_hire\<close>

text \<open>
  Claim C1, as the code has it. The denominator of every bracket is \<^verbatim>\<open>total_hires\<close>, the
  number of rows with a hire date, not the number of applications. For ten January
  applications of which four are hired in the month after the application month and six
  have no hire date, \<open>compute_time_to_hire\<close> with horizon 3 returns \<open>[0, 1, 0]\<close>, whose
  entries sum to 1.
\<close>

theorem compute_time_to_hire_scenario_A:
  assumes "ten_january_four_hired df"
  shows "\<exists>v. compute_time_to_hire df 3 = Inr v \<and> v = [0, 1, 0] \<and> sum_list v = 1"
proof -
  let ?hs = "hired_months df"
  from assms have n: "length df = 10"
    and none: "length (filter (\<lambda>r. successful_date r = None) df) = 6"
    and next_month: "\<forall>r\<in>set df. case successful_date r of
                       None \<Rightarrow> True
                     | Some h \<Rightarrow> to_period_M h = to_period_M (application_date r) + 1"
    by (simp_all add: ten_january_four_hired_def list_all_iff)
  have "length (filter (\<lambda>r. successful_date r = None) df) + length (hired_rows df) = length df"
    unfolding hired_rows_def by (rule sum_length_filter_compl)
  with n none have len: "length ?hs = 4"
    by (simp add: length_hired_months)
  have one: "\<forall>p\<in>set ?hs. snd p - fst p = 1"
    using next_month
    by (auto simp add: hired_months_map hired_rows_def months_of_def split: option.splits)
  then have "filter (in_bracket 0) ?hs = []" "filter (in_bracket 1) ?hs = ?hs"
    "filter (in_bracket 2) ?hs = []"
    by (simp_all add: in_bracket_def filter_empty_conv filter_id_conv)
  moreover have "[0..<3] = [0, 1, 2]"
    by code_simp
  ultimately have "compute_time_to_hire df 3 = Inr [0, 1, 0]"
    using len by (simp add: compute_time_to_hire_eq)
  then show ?thesis by simp
qed

theorem compute_time_to_hire_scenario_A_witness:
  "ten_january_four_hired scenario_A \<and>
   (\<exists>v. compute_time_to_hire scenario_A 3 = Inr v \<and> v = [0, 1, 0] \<and> sum_list v = 1)"
proof -
  have h: "ten_january_four_hired scenario_A" by code_simp
  show ?thesis using h compute_time_to_hire_scenario_A [OF h] by simp
qed

text \<open>
  Claim C1 as stated fails: on four February hires out of ten January applications the
  result is not \<open>[0, 0.4, 0]\<close>.
\<close>

theorem scenario_A_not_two_fifths:
  "ten_january_four_hired scenario_A \<and> compute_time_to_hire scenario_A 3 \<noteq> Inr [0, 2 / 5, 0]"
  by code_simp

text \<open>
  Claim C2: for every list of rows and every horizon, \<open>compute_time_to_hire\<close> returns
  (without raising) what the algorithm of the specification describes: rows without hire
  date are discarded, \<open>totalHires\<close> counts the rest, the rest is grouped by application
  month, bracket \<open>k\<close> accumulates over the cohorts \<open>c\<close> the rows whose hire month lies in
  \<open>[c + k, c + (k + 1))\<close>, and the result is that count divided by \<open>totalHires\<close>, or 0 for
  every bracket when \<open>totalHires\<close> is 0.
\<close>
theorem compute_time_to_hire_refines_spec:
  "compute_time_to_hire df num_months = Inr (computeBrackets_spec df num_months)"
proof -
  have "computeBrackets_spec df num_months =
        map (\<lambda>k. if 0 < length (hired_months df)
                  then of_nat (length (filter (in_bracket k) (hired_months df))) /
                       of_nat (length (hired_months df))
                  else 0) [0..<num_months]"
    unfolding computeBrackets_spec_def Let_def hired_rows_def [symmetric] spec_accumulated
      length_hired_months [symmetric]
    by simp
  then show ?thesis by (simp add: compute_time_to_hire_eq)
qed

text \<open>
  Claim C3: for every list of rows and every horizon, \<open>compute_time_to_hire\<close> returns a
  list (no exception) whose length is the horizon; every entry lies in \<open>[0, 1]\<close> when at least
  one row has a hire date, and all entries are zero when none has. On the empty table
  the result is the zero list of the requested length.
\<close>

theorem compute_time_to_hire_shape:
  "(\<exists>v. compute_time_to_hire df num_months = Inr v \<and> length v = num_months \<and>
        (0 < length (filter (\<lambda>r. successful_date r \<noteq> None) df) \<longrightarrow>
           (\<forall>x\<in>set v. 0 \<le> x \<and> x \<le> 1)) \<and>
        (length (filter (\<lambda>r. successful_date r \<noteq> None) df) = 0 \<longrightarrow>
           v = replicate num_months 0)) \<and>
   compute_time_to_hire [] num_months = Inr (replicate num_months 0)"
proof -
  let ?hs = "hired_months df"
  let ?v = "map (\<lambda>k. if 0 < length ?hs
                      then of_nat (length (filter (in_bracket k) ?hs)) / of_nat (length ?hs)
                      else (0::rat)) [0..<num_months]"
  have len: "length ?hs = length (filter (\<lambda>r. successful_date r \<noteq> None) df)"
    by (simp add: length_hired_months hired_rows_def)
  have "compute_time_to_hire df num_months = Inr ?v"
    by (rule compute_time_to_hire_eq)
  moreover have "length ?v = num_months" by simp
  moreover have "0 < length ?hs \<Longrightarrow> \<forall>x\<in>set ?v. 0 \<le> x \<and> x \<le> 1"
    using fraction_bounds [of "length ?hs"] by auto
  moreover have "length ?hs = 0 \<Longrightarrow> ?v = replicate num_months 0"
    by (simp add: map_replicate_const)
  moreover have "compute_time_to_hire [] num_months = Inr (replicate num_months 0)"
    by (simp add: compute_time_to_hire_eq hired_months_def map_replicate_const)
  ultimately show ?thesis
    unfolding len by blast
qed

theorem compute_time_to_hire_shape_witness:
  "0 < length (filter (\<lambda>r. successful_date r \<noteq> None) scenario_A) \<and>
   (\<exists>v. compute_time_to_hire scenario_A 3 = Inr v \<and> length v = 3 \<and>
        (\<forall>x\<in>set v. 0 \<le> x \<and> x \<le> 1)) \<and>
   length (filter (\<lambda>r. successful_date r \<noteq> None) [january_row None]) = 0 \<and>
   compute_time_to_hire [january_row None] 2 = Inr [0, 0]"
proof -
  have pos: "0 < length (filter (\<lambda>r. successful_date r \<noteq> None) scenario_A)"
    by (simp add: scenario_A_def january_row_def)
  have zero: "length (filter (\<lambda>r. successful_date r \<noteq> None) [january_row None]) = 0"
    by (simp add: january_row_def)
  have two: "replicate 2 (0::rat) = [0, 0]"
    by (simp add: numeral_2_eq_2)
  from pos zero two show ?thesis
    using compute_time_to_hire_shape [of scenario_A 3]
      compute_time_to_hire_shape [of "[january_row None]" 2]
    by auto
qed

text \<open>
  Claim C4, amended. The bracket counts that \<open>compute_time_to_hire\<close> accumulates sum to at
  most \<^verbatim>\<open>total_hires\<close>, and to exactly \<^verbatim>\<open>total_hires\<close> if and only if every row with a hire
  date has its hire month at an offset in \<open>[0, horizon)\<close> of its application month. When
  some row has a hire date the returned entries are these counts divided by
  \<^verbatim>\<open>total_hires\<close> (each a double in the program, so that their sum is 1 only up to
  rounding); when no row has a hire date every entry is 0 and the entries sum to 0.
\<close>

theorem bracket_counts_total:
  "sum_list (bracket_counts_of df num_months) \<le>
     int (length (filter (\<lambda>r. successful_date r \<noteq> None) df)) \<and>
   (sum_list (bracket_counts_of df num_months) =
      int (length (filter (\<lambda>r. successful_date r \<noteq> None) df)) \<longleftrightarrow>
    list_all (within_horizon num_months) df) \<and>
   (0 < length (filter (\<lambda>r. successful_date r \<noteq> None) df) \<longrightarrow>
      compute_time_to_hire df num_months =
        Inr (map (\<lambda>c. of_int c / of_int (int (length (filter (\<lambda>r. successful_date r \<noteq> None) df))))
               (bracket_counts_of df num_months))) \<and>
   (length (filter (\<lambda>r. successful_date r \<noteq> None) df) = 0 \<longrightarrow>
      (\<exists>v. compute_time_to_hire df num_months = Inr v \<and> v = replicate num_months 0 \<and>
           sum_list v = 0))"
proof -
  let ?hs = "hired_months df"
  let ?w = "length (filter (in_window num_months) ?hs)"
  have len: "length ?hs = length (filter (\<lambda>r. successful_date r \<noteq> None) df)"
    by (simp add: length_hired_months hired_rows_def)
  have total: "sum_list (bracket_counts_of df num_months) = int ?w"
    by (simp add: bracket_counts_of_eq int_sum_list bracket_counts_sum)
  have "?w \<le> length ?hs" by simp
  then have "sum_list (bracket_counts_of df num_months) \<le> int (length ?hs)"
    by (simp only: total of_nat_le_iff)
  moreover have "sum_list (bracket_counts_of df num_months) = int (length ?hs) \<longleftrightarrow>
                 list_all (within_horizon num_months) df"
  proof -
    have "sum_list (bracket_counts_of df num_months) = int (length ?hs) \<longleftrightarrow> ?w = length ?hs"
      by (simp only: total of_nat_eq_iff)
    also have "\<dots> \<longleftrightarrow> (\<forall>p\<in>set ?hs. in_window num_months p)"
      by (rule length_filter_eq_iff)
    also have "\<dots> \<longleftrightarrow> list_all (within_horizon num_months) df"
      by (rule all_in_window_iff)
    finally show ?thesis .
  qed
  moreover have "compute_time_to_hire df num_months =
        Inr (map (\<lambda>c. of_int c / of_int (int (length ?hs))) (bracket_counts_of df num_months))"
    if "0 < length ?hs"
    using that by (simp add: compute_time_to_hire_eq bracket_counts_of_eq o_def)
  moreover have "\<exists>v. compute_time_to_hire df num_months = Inr v \<and> v = replicate num_months 0 \<and>
           sum_list v = 0"
    if "length ?hs = 0"
    using that by (simp add: compute_time_to_hire_eq map_replicate_const sum_list_replicate)
  ultimately show ?thesis
    unfolding len by blast
qed

theorem bracket_counts_total_witness:
  "0 < length (filter (\<lambda>r. successful_date r \<noteq> None) scenario_A) \<and>
   list_all (within_horizon 3) scenario_A \<and>
   sum_list (bracket_counts_of scenario_A 3) =
     int (length (filter (\<lambda>r. successful_date r \<noteq> None) scenario_A)) \<and>
   \<not> list_all (within_horizon 1) scenario_A \<and>
   sum_list (bracket_counts_of scenario_A 1) <
     int (length (filter (\<lambda>r. successful_date r \<noteq> None) scenario_A)) \<and>
   length (filter (\<lambda>r. successful_date r \<noteq> None) [january_row None]) = 0 \<and>
   compute_time_to_hire [january_row None] 2 = Inr (replicate 2 0)"
proof -
  have pos: "0 < length (filter (\<lambda>r. successful_date r \<noteq> None) scenario_A)"
    by (simp add: scenario_A_def january_row_def)
  have win: "list_all (within_horizon 3) scenario_A"
    by code_simp
  have out: "\<not> list_all (within_horizon 1) scenario_A"
    by code_simp
  have zero: "length (filter (\<lambda>r. successful_date r \<noteq> None) [january_row None]) = 0"
    by (simp add: january_row_def)
  from win bracket_counts_total [of scenario_A 3]
  have three: "sum_list (bracket_counts_of scenario_A 3) =
      int (length (filter (\<lambda>r. successful_date r \<noteq> None) scenario_A))"
    by blast
  from out bracket_counts_total [of scenario_A 1]
  have "sum_list (bracket_counts_of scenario_A 1) \<le>
      int (length (filter (\<lambda>r. successful_date r \<noteq> None) scenario_A))"
    and "sum_list (bracket_counts_of scenario_A 1) \<noteq>
      int (length (filter (\<lambda>r. successful_date r \<noteq> None) scenario_A))"
    by blast+
  then have one: "sum_list (bracket_counts_of scenario_A 1) <
      int (length (filter (\<lambda>r. successful_date r \<noteq> None) scenario_A))"
    by linarith
  from zero bracket_counts_total [of "[january_row None]" 2]
  have none: "compute_time_to_hire [january_row None] 2 = Inr (replicate 2 0)"
    by blast
  from pos win three out one zero none show ?thesis
    by (intro conjI)
qed

text \<open>
  Claim C4 as stated fails where no row has a hire date: every row with a hire date is
  within the horizon (there is none), and the entries sum to 0, not to 1.
\<close>

theorem no_hires_sum_counterexample:
  "list_all (within_horizon 3) [january_row None] \<and>
   compute_time_to_hire [january_row None] 3 = Inr [0, 0, 0] \<and>
   sum_list [0, 0, 0 :: rat] \<noteq> 1"
  by code_simp

section \<open>The month-name table\<close>

lemma compute_time_to_hire_Inr:
  "compute_time_to_hire df n = Inr (bracket_fractions df n)"
  by (simp add: compute_time_to_hire_eq bracket_fractions_def)

lemma bracket_fractions_Nil: "bracket_fractions [] n = replicate n 0"
  by (simp add: bracket_fractions_def hired_months_def map_replicate_const)

lemma length_bracket_fractions [simp]: "length (bracket_fractions df n) = n"
  by (simp add: bracket_fractions_def)

lemma month_loop_eq:
  "month_loop df ms table =
     Inr (\<lambda>m. if m \<in> set ms
               then Some (bracket_fractions (filter (\<lambda>r. month_name r = m) df) 12)
               else table m)"
proof (induction ms arbitrary: table)
  case Nil
  then show ?case by simp
next
  case (Cons a ms)
  have entry: "(if filter (\<lambda>r. month_name r = a) df \<noteq> []
                then compute_time_to_hire (filter (\<lambda>r. month_name r = a) df) 12
                else Inr (replicate 12 0)) =
               Inr (bracket_fractions (filter (\<lambda>r. month_name r = a) df) 12)"
    by (simp add: compute_time_to_hire_Inr bracket_fractions_Nil)
  show ?case
    by (simp only: month_loop.simps Let_def entry sum.case Cons.IH) (rule arg_cong [where f = Inr], auto)
qed

lemma distinct_month_lookup: "distinct month_lookup"
  by (simp add: month_lookup_def)

lemma length_month_lookup: "length month_lookup = 12"
  by (simp add: month_lookup_def)

lemma strftime_b_in_lookup: "strftime_b m \<in> set month_lookup"
  unfolding strftime_b_def by (rule nth_mem) (simp add: length_month_lookup nat_less_iff)

text \<open>The table that the program builds can always be indexed by the calculator.\<close>

lemma month_wise_brackets_table_ok:
  "month_wise_brackets df = Inr table \<Longrightarrow> table_ok table"
  by (auto simp add: month_wise_brackets_def month_loop_eq table_ok_def list_all_iff)

text \<open>
  Claim C5: for every list of rows, \<open>month_wise_brackets\<close> returns (without raising) a
  dictionary whose keys are exactly the 12 month names Jan to Dec; under each month name
  it holds what \<open>compute_time_to_hire\<close> (horizon 12, as in the source) returns on the rows
  whose application date has that month name, and that list is all zeros when no row has
  that month name.
\<close>

theorem month_wise_brackets_table:
  "\<exists>table. month_wise_brackets filtered_df = Inr table \<and>
      dom table = set month_lookup \<and> card (dom table) = 12 \<and>
      (\<forall>m\<in>set month_lookup. \<exists>v. table m = Some v \<and>
          compute_time_to_hire (filter (\<lambda>r. month_name r = m) filtered_df) 12 = Inr v \<and>
          (filter (\<lambda>r. month_name r = m) filtered_df = [] \<longrightarrow> v = replicate 12 0))"
proof -
  let ?t = "\<lambda>m. if m \<in> set month_lookup
                 then Some (bracket_fractions (filter (\<lambda>r. month_name r = m) filtered_df) 12)
                 else None"
  have "month_wise_brackets filtered_df = Inr ?t"
    by (simp add: month_wise_brackets_def month_loop_eq)
  moreover have d: "dom ?t = set month_lookup"
    by (auto simp add: dom_def)
  moreover have "card (dom ?t) = 12"
    unfolding d using distinct_month_lookup length_month_lookup by (simp add: distinct_card)
  moreover have "\<forall>m\<in>set month_lookup. \<exists>v. ?t m = Some v \<and>
          compute_time_to_hire (filter (\<lambda>r. month_name r = m) filtered_df) 12 = Inr v \<and>
          (filter (\<lambda>r. month_name r = m) filtered_df = [] \<longrightarrow> v = replicate 12 0)"
    by (simp add: compute_time_to_hire_Inr bracket_fractions_Nil)
  ultimately show ?thesis by blast
qed

theorem month_wise_brackets_table_witness:
  "''Jan'' \<in> set month_lookup \<and> ''Feb'' \<in> set month_lookup \<and>
   filter (\<lambda>r. month_name r = ''Feb'') scenario_A = [] \<and>
   (\<exists>table. month_wise_brackets scenario_A = Inr table \<and> card (dom table) = 12 \<and>
      table ''Jan'' = Some [0, 1, 0, 0, 0, 0, 0, 0, 0, 0, 0, 0] \<and>
      table ''Feb'' = Some [0, 0, 0, 0, 0, 0, 0, 0, 0, 0, 0, 0])"
proof -
  have jan: "''Jan'' \<in> set month_lookup" and feb: "''Feb'' \<in> set month_lookup"
    by (simp_all add: month_lookup_def)
  have empty: "filter (\<lambda>r. month_name r = ''Feb'') scenario_A = []"
    by code_simp
  have v: "compute_time_to_hire (filter (\<lambda>r. month_name r = ''Jan'') scenario_A) 12 =
           Inr [0, 1, 0, 0, 0, 0, 0, 0, 0, 0, 0, 0]"
    by code_simp
  have z: "replicate 12 (0::rat) = [0, 0, 0, 0, 0, 0, 0, 0, 0, 0, 0, 0]"
    by code_simp
  from month_wise_brackets_table [of scenario_A] obtain table where
    t: "month_wise_brackets scenario_A = Inr table" "card (dom table) = 12"
    and all: "\<forall>m\<in>set month_lookup. \<exists>v. table m = Some v \<and>
          compute_time_to_hire (filter (\<lambda>r. month_name r = m) scenario_A) 12 = Inr v \<and>
          (filter (\<lambda>r. month_name r = m) scenario_A = [] \<longrightarrow> v = replicate 12 0)"
    by blast
  from all jan v have "table ''Jan'' = Some [0, 1, 0, 0, 0, 0, 0, 0, 0, 0, 0, 0]"
    by fastforce
  moreover from all feb empty z have "table ''Feb'' = Some [0, 0, 0, 0, 0, 0, 0, 0, 0, 0, 0, 0]"
    by fastforce
  ultimately show ?thesis using jan feb empty t by blast
qed

section \<open>The cost calculator\<close>

lemma table_lookup_getitem:
  assumes "table_ok table" and "i < 12"
  shows "py_getitem (case table (strftime_b m) of None \<Rightarrow> replicate 12 0 | Some v \<Rightarrow> v) i =
         Inr (weight_at table (strftime_b m) i)"
proof (cases "table (strftime_b m)")
  case None
  with assms(2) show ?thesis by (simp add: py_getitem_def weight_at_def)
next
  case (Some ws)
  from assms(1) strftime_b_in_lookup [of m] Some have "12 \<le> length ws"
    by (auto simp add: table_ok_def list_all_iff)
  with assms(2) Some show ?thesis by (simp add: py_getitem_def weight_at_def)
qed

lemma lookback_loop_eq:
  assumes "table_ok table" and "\<forall>i\<in>set offsets. i < 12"
  shows "lookback_loop ops hm spend_df table offsets acc =
         Inr (foldl (\<lambda>acc i. fadd ops acc
                               (fmul ops (spend_in spend_df (hm - int i))
                                         (weight_at table (strftime_b (hm - int i)) i)))
                acc offsets)"
  using assms(2)
proof (induction offsets arbitrary: acc)
  case Nil
  then show ?case by simp
next
  case (Cons i offsets)
  then have "i < 12" by simp
  with assms(1) have "py_getitem (case table (strftime_b (hm - int i)) of
                         None \<Rightarrow> replicate 12 0 | Some v \<Rightarrow> v) i =
                      Inr (weight_at table (strftime_b (hm - int i)) i)"
    by (rule table_lookup_getitem)
  with Cons show ?case by (simp add: Let_def)
qed

lemma lookback_loop_attributed:
  "table_ok table \<Longrightarrow>
   lookback_loop ops hm spend_df table [0..<12] 0 = Inr (attributed_spend ops spend_df table hm)"
  by (simp add: lookback_loop_eq attributed_spend_def)

lemma foldl_plus: "foldl (\<lambda>acc i. acc + g i) (a::rat) xs = a + (\<Sum>i\<leftarrow>xs. g i)"
  by (induction xs arbitrary: a) (simp_all add: add.assoc)

lemma attributed_spend_exact:
  "attributed_spend exact_ops spend_df table hm =
     (\<Sum>i\<leftarrow>[0..<12]. spend_in spend_df (hm - int i) *
                       weight_at table (strftime_b (hm - int i)) i)"
  by (simp add: attributed_spend_def exact_ops_def foldl_plus)

lemma cac_loop_eq:
  assumes "table_ok table"
  shows "cac_loop ops hire_df spend_df table hms rows =
         Inr (rows @ map (cac_row_of ops hire_df spend_df table) hms)"
proof (induction hms arbitrary: rows)
  case Nil
  then show ?case by simp
next
  case (Cons hm hms)
  show ?case
    by (simp add: Let_def lookback_loop_attributed [OF assms] Cons.IH float_truediv_def
          cac_row_of_def)
qed

lemma cac_rows_eq:
  "table_ok table \<Longrightarrow>
   cac_rows ops hire_df spend_df table =
     Inr (map (cac_row_of ops hire_df spend_df table) (hire_months hire_df))"
  by (simp add: cac_rows_def cac_loop_eq hire_months_def)

lemma set_dropna: "set (dropna xs) = {x. Some x \<in> set xs}"
  by (induction xs) (auto simp add: dropna_def split: option.splits)

lemma set_hire_months: "set (hire_months hire_df) = {m. Some m \<in> hire_month ` set hire_df}"
  by (simp add: hire_months_def set_dropna)

lemma distinct_hire_months: "distinct (hire_months hire_df)"
  by (simp add: hire_months_def)

lemma sorted_hire_months: "sorted (hire_months hire_df)"
  by (simp add: hire_months_def)

lemma hire_months_cong:
  assumes "set hire_df' = set hire_df"
  shows "hire_months hire_df' = hire_months hire_df"
proof (rule sorted_distinct_set_unique)
  show "set (hire_months hire_df') = set (hire_months hire_df)"
    by (simp add: set_hire_months assms)
qed (simp_all add: sorted_hire_months distinct_hire_months)

lemma hires_in_wrap: "hires_in hire_df hm = int64 (hires_sum hire_df hm)"
  by (simp add: hires_in_def hires_sum_def)

lemma hires_sum_mset:
  "hires_sum hire_df hm =
     sum_mset (image_mset hires (filter_mset (\<lambda>r. hire_month r = Some hm) (mset hire_df)))"
  by (simp add: hires_sum_def flip: mset_filter mset_map sum_mset_sum_list)

lemma spend_in_mset:
  "spend_in spend_df sm =
     sum_mset (image_mset monthly_spend (filter_mset (\<lambda>r. spend_month r = sm) (mset spend_df)))"
  by (simp add: spend_in_def flip: mset_filter mset_map sum_mset_sum_list)

lemma lookback_loop_cong:
  "(\<And>m. spend_in s' m = spend_in s m) \<Longrightarrow>
   lookback_loop ops hm s' table offsets acc = lookback_loop ops hm s table offsets acc"
  by (induction offsets arbitrary: acc) (simp_all add: Let_def split: sum.splits)

lemma cac_loop_cong:
  assumes "\<And>m. hires_in h' m = hires_in h m" and "\<And>m. spend_in s' m = spend_in s m"
  shows "cac_loop ops h' s' table hms rows = cac_loop ops h s table hms rows"
proof (induction hms arbitrary: rows)
  case Nil
  then show ?case by simp
next
  case (Cons hm hms)
  have "lookback_loop ops hm s' table [0..<12] 0 = lookback_loop ops hm s table [0..<12] 0"
    using assms(2) by (rule lookback_loop_cong)
  then show ?case
    by (simp only: cac_loop.simps assms(1) Cons.IH)
qed

lemma cac_rows_perm:
  assumes "mset hire_df' = mset hire_df" and "mset spend_df' = mset spend_df"
  shows "cac_rows ops hire_df' spend_df' table = cac_rows ops hire_df spend_df table"
proof -
  have "set hire_df' = set hire_df"
    using assms(1) by (rule mset_eq_setD)
  then have "hire_months hire_df' = hire_months hire_df"
    by (rule hire_months_cong)
  moreover have "cac_loop ops hire_df' spend_df' table hms [] =
                 cac_loop ops hire_df spend_df table hms []" for hms
    by (rule cac_loop_cong) (simp_all add: hires_in_wrap hires_sum_mset spend_in_mset assms)
  ultimately show ?thesis
    by (simp add: cac_rows_def hire_months_def)
qed

lemma cac_loop_step:
  assumes "cac_loop ops h s t (hm # hms) rows = Inr out"
  shows "\<exists>ws cac. cac_loop ops h s t hms
                     (rows @ [\<lparr>Hire_Month = hm, Total_Hires = hires_in h hm,
                               Weighted_Spend = round2 ops ws,
                               CAC = map_option (round2 ops) cac\<rparr>]) = Inr out \<and>
                   (cac = None) = (hires_in h hm \<le> 0)"
proof (cases "lookback_loop ops hm s t [0..<12] 0")
  case (Inl e)
  with assms have "Inl e = Inr out"
    by (simp only: cac_loop.simps Let_def sum.case)
  then show ?thesis by simp
next
  case (Inr ws)
  show ?thesis
  proof (cases "0 < hires_in h hm")
    case True
    then have "float_truediv ops ws (hires_in h hm) = Inr (fdiv ops ws (hires_in h hm))"
      by (simp add: float_truediv_def)
    with assms Inr True have
      "cac_loop ops h s t hms
         (rows @ [\<lparr>Hire_Month = hm, Total_Hires = hires_in h hm,
                   Weighted_Spend = round2 ops ws,
                   CAC = map_option (round2 ops) (Some (fdiv ops ws (hires_in h hm)))\<rparr>]) =
       Inr out"
      by (simp only: cac_loop.simps Let_def sum.case if_True)
    moreover have "(Some (fdiv ops ws (hires_in h hm)) = None) = (hires_in h hm \<le> 0)"
      using True by simp
    ultimately show ?thesis by blast
  next
    case False
    with assms Inr have
      "cac_loop ops h s t hms
         (rows @ [\<lparr>Hire_Month = hm, Total_Hires = hires_in h hm,
                   Weighted_Spend = round2 ops ws,
                   CAC = map_option (round2 ops) None\<rparr>]) = Inr out"
      by (simp only: cac_loop.simps Let_def sum.case if_False)
    moreover have "((None :: rat option) = None) = (hires_in h hm \<le> 0)"
      using False by simp
    ultimately show ?thesis by blast
  qed
qed

lemma cac_loop_rows:
  "cac_loop ops h s t hms rows = Inr out \<Longrightarrow>
   \<exists>new. out = rows @ new \<and> map Hire_Month new = hms \<and>
     (\<forall>row\<in>set new. Total_Hires row = hires_in h (Hire_Month row) \<and>
        (CAC row = None) = (hires_in h (Hire_Month row) \<le> 0))"
proof (induction hms arbitrary: rows)
  case Nil
  then show ?case by simp
next
  case (Cons hm hms)
  from cac_loop_step [OF Cons.prems] obtain ws cac where
    step: "cac_loop ops h s t hms
             (rows @ [\<lparr>Hire_Month = hm, Total_Hires = hires_in h hm,
                       Weighted_Spend = round2 ops ws,
                       CAC = map_option (round2 ops) cac\<rparr>]) = Inr out"
    and cac: "(cac = None) = (hires_in h hm \<le> 0)"
    by blast
  define r where "r = \<lparr>Hire_Month = hm, Total_Hires = hires_in h hm,
                        Weighted_Spend = round2 ops ws,
                        CAC = map_option (round2 ops) cac\<rparr>"
  have r: "Hire_Month r = hm" "Total_Hires r = hires_in h hm" "(CAC r = None) = (cac = None)"
    by (simp_all add: r_def)
  from step have "cac_loop ops h s t hms (rows @ [r]) = Inr out"
    by (simp only: r_def)
  from Cons.IH [OF this] obtain new where
    new: "out = (rows @ [r]) @ new"
      "map Hire_Month new = hms"
      "\<forall>row\<in>set new. Total_Hires row = hires_in h (Hire_Month row) \<and>
        (CAC row = None) = (hires_in h (Hire_Month row) \<le> 0)"
    by blast
  have "out = rows @ (r # new)" using new(1) by simp
  moreover have "map Hire_Month (r # new) = hm # hms" using new(2) r(1) by simp
  moreover have "\<forall>row\<in>set (r # new). Total_Hires row = hires_in h (Hire_Month row) \<and>
        (CAC row = None) = (hires_in h (Hire_Month row) \<le> 0)"
  proof
    fix row
    assume "row \<in> set (r # new)"
    then have "row = r \<or> row \<in> set new" by simp
    then show "Total_Hires row = hires_in h (Hire_Month row) \<and>
        (CAC row = None) = (hires_in h (Hire_Month row) \<le> 0)"
    proof
      assume "row = r"
      then show ?thesis by (simp only: r cac)
    next
      assume "row \<in> set new"
      with new(3) show ?thesis by (rule bspec)
    qed
  qed
  ultimately show ?case by (intro exI [of _ "r # new"] conjI)
qed

lemma cac_rows_rows:
  assumes "cac_rows ops h s t = Inr rows"
  shows "map Hire_Month rows = hire_months h"
    and "\<forall>row\<in>set rows. Total_Hires row = hires_in h (Hire_Month row) \<and>
           (CAC row = None) = (hires_in h (Hire_Month row) \<le> 0)"
  using cac_loop_rows [of ops h s t "hire_months h" "[]" rows] assms
  by (auto simp add: cac_rows_def hire_months_def)

lemma cac_rows_returns: "table_ok t \<Longrightarrow> \<exists>rows. cac_rows ops h s t = Inr rows"
  by (simp add: cac_rows_eq)

lemma sum_list_ge_one:
  "xs \<noteq> [] \<Longrightarrow> \<forall>x\<in>set xs. (1::int) \<le> f x \<Longrightarrow> 1 \<le> sum_list (map f xs)"
proof (induction xs)
  case Nil
  then show ?case by simp
next
  case (Cons x xs)
  have "0 \<le> sum_list (map f xs)"
    using Cons.prems(2) by (intro sum_list_nonneg) auto
  with Cons.prems(2) show ?case by simp
qed

lemma int64_id: "- (2 ^ 63) \<le> x \<Longrightarrow> x < 2 ^ 63 \<Longrightarrow> int64 x = x"
  by (simp add: int64_def)

lemma hires_in_positive:
  assumes "\<forall>r\<in>set h. 1 \<le> hires r" and "hm \<in> set (hire_months h)"
    and "hires_sum h hm < 2 ^ 63"
  shows "0 < hires_in h hm"
proof -
  from assms(2) have "filter (\<lambda>r. hire_month r = Some hm) h \<noteq> []"
    by (auto simp add: set_hire_months filter_empty_conv)
  moreover from assms(1) have "\<forall>r\<in>set (filter (\<lambda>r. hire_month r = Some hm) h). 1 \<le> hires r"
    by simp
  ultimately have "1 \<le> hires_sum h hm"
    unfolding hires_sum_def by (rule sum_list_ge_one)
  with assms(3) have "int64 (hires_sum h hm) = hires_sum h hm" "0 < hires_sum h hm"
    by (simp_all add: int64_id)
  then show ?thesis by (simp only: hires_in_wrap)
qed

lemma spend_in_absent:
  "\<forall>r\<in>set spend_df. spend_month r \<noteq> sm \<Longrightarrow> spend_in spend_df sm = 0"
  by (simp add: spend_in_def filter_False)

subsection \<open>Results on cac_rows\<close>

text \<open>
  Claim C6: with a table that has at least 12 weights under every month name, and whatever
  the rounding of the operations on doubles, the loop over \<^verbatim>\<open>range(12)\<close> returns for a hire
  month the value accumulated, for \<open>i = 0, \<dots>, 11\<close> in this order, from the products of the
  spend of the month \<open>i\<close> months earlier and the weight stored under that month's name at
  index \<open>i\<close>; a month without spend row has spend 0; the row of every hire month carries
  \<^verbatim>\<open>round(weighted_spend, 2)\<close> and, when the summed hires are positive,
  \<^verbatim>\<open>round(weighted_spend / hires, 2)\<close>, otherwise \<^verbatim>\<open>'N/A'\<close>. In exact arithmetic the accumulated
  value is the sum over \<open>i\<close> of spend times weight, and for hire month 2024-03 with spend
  100, 200, 300 in 2024-01, 02, 03, weights 0.1, 0.3, 0.5 under Jan, Feb, Mar at offsets
  2, 1, 0 and 10 hires, the weighted spend is 220 and the cost per hire is 22.
\<close>

theorem cac_rows_formula:
  assumes "table_ok table"
  shows "lookback_loop ops hm spend_df table [0..<12] 0 =
           Inr (foldl (\<lambda>acc i. fadd ops acc
                                 (fmul ops (spend_in spend_df (hm - int i))
                                           (weight_at table (strftime_b (hm - int i)) i)))
                  0 [0..<12]) \<and>
         (sm \<notin> spend_month ` set spend_df \<longrightarrow> spend_in spend_df sm = 0) \<and>
         cac_rows ops hire_df spend_df table =
           Inr (map (\<lambda>m. \<lparr>Hire_Month = m,
                           Total_Hires = hires_in hire_df m,
                           Weighted_Spend = round2 ops (attributed_spend ops spend_df table m),
                           CAC = (if 0 < hires_in hire_df m
                                  then Some (round2 ops
                                               (fdiv ops (attributed_spend ops spend_df table m)
                                                         (hires_in hire_df m)))
                                  else None)\<rparr>)
                  (sort (unique (dropna (map hire_month hire_df))))) \<and>
         lookback_loop exact_ops hm spend_df table [0..<12] 0 =
           Inr (\<Sum>i\<leftarrow>[0..<12]. spend_in spend_df (hm - int i) *
                                 weight_at table (strftime_b (hm - int i)) i) \<and>
         lookback_loop exact_ops (month_start 2024 3) scenario_C_spend scenario_C_table
           [0..<12] 0 = Inr 220 \<and>
         float_truediv exact_ops 220 10 = Inr 22 \<and>
         cac_rows exact_ops scenario_C_hires scenario_C_spend scenario_C_table =
           Inr [\<lparr>Hire_Month = month_start 2024 3, Total_Hires = 10,
                 Weighted_Spend = 220, CAC = Some 22\<rparr>]"
proof -
  have "lookback_loop ops hm spend_df table [0..<12] 0 =
           Inr (foldl (\<lambda>acc i. fadd ops acc
                                 (fmul ops (spend_in spend_df (hm - int i))
                                           (weight_at table (strftime_b (hm - int i)) i)))
                  0 [0..<12])"
    using lookback_loop_attributed [OF assms] by (simp add: attributed_spend_def)
  moreover have "sm \<notin> spend_month ` set spend_df \<longrightarrow> spend_in spend_df sm = 0"
    by (auto intro: spend_in_absent)
  moreover have "cac_rows ops hire_df spend_df table =
           Inr (map (\<lambda>m. \<lparr>Hire_Month = m,
                           Total_Hires = hires_in hire_df m,
                           Weighted_Spend = round2 ops (attributed_spend ops spend_df table m),
                           CAC = (if 0 < hires_in hire_df m
                                  then Some (round2 ops
                                               (fdiv ops (attributed_spend ops spend_df table m)
                                                         (hires_in hire_df m)))
                                  else None)\<rparr>)
                  (sort (unique (dropna (map hire_month hire_df)))))"
    using cac_rows_eq [OF assms, of ops hire_df spend_df]
    by (simp add: cac_row_of_def [abs_def] hire_months_def)
  moreover have "lookback_loop exact_ops hm spend_df table [0..<12] 0 =
           Inr (\<Sum>i\<leftarrow>[0..<12]. spend_in spend_df (hm - int i) *
                                 weight_at table (strftime_b (hm - int i)) i)"
    using lookback_loop_attributed [OF assms, of exact_ops]
    by (simp only: attributed_spend_exact)
  moreover have "lookback_loop exact_ops (month_start 2024 3) scenario_C_spend scenario_C_table
                   [0..<12] 0 = Inr 220"
    by code_simp
  moreover have "float_truediv exact_ops 220 10 = Inr 22"
    by code_simp
  moreover have "cac_rows exact_ops scenario_C_hires scenario_C_spend scenario_C_table =
           Inr [\<lparr>Hire_Month = month_start 2024 3, Total_Hires = 10,
                 Weighted_Spend = 220, CAC = Some 22\<rparr>]"
    by code_simp
  ultimately show ?thesis by (intro conjI)
qed

theorem cac_rows_formula_witness:
  "table_ok scenario_C_table \<and>
   month_start 2023 12 \<notin> spend_month ` set scenario_C_spend \<and>
   spend_in scenario_C_spend (month_start 2023 12) = 0 \<and>
   lookback_loop exact_ops (month_start 2024 3) scenario_C_spend scenario_C_table [0..<12] 0 =
     Inr 220 \<and>
   cac_rows exact_ops scenario_C_hires scenario_C_spend scenario_C_table =
     Inr [\<lparr>Hire_Month = month_start 2024 3, Total_Hires = 10,
           Weighted_Spend = 220, CAC = Some 22\<rparr>]"
proof -
  have ok: "table_ok scenario_C_table"
    by code_simp
  have absent: "month_start 2023 12 \<notin> spend_month ` set scenario_C_spend"
    by (simp add: scenario_C_spend_def month_start_def)
  note th = cac_rows_formula [OF ok, of exact_ops "month_start 2024 3" scenario_C_spend
      "month_start 2023 12" scenario_C_hires]
  from th absent have "spend_in scenario_C_spend (month_start 2023 12) = 0"
    by (elim conjE) (rule mp)
  moreover from th have
    "lookback_loop exact_ops (month_start 2024 3) scenario_C_spend scenario_C_table [0..<12] 0 =
       Inr 220"
    by (elim conjE)
  moreover from th have
    "cac_rows exact_ops scenario_C_hires scenario_C_spend scenario_C_table =
       Inr [\<lparr>Hire_Month = month_start 2024 3, Total_Hires = 10,
             Weighted_Spend = 220, CAC = Some 22\<rparr>]"
    by (elim conjE)
  ultimately show ?thesis
    using ok absent by (intro conjI)
qed

text \<open>
  Claim C7, amended. When a hire month occurs in the hire table and its summed hires are 0,
  the calculator returns without raising (no division by zero) and the row of that month
  reports \<^verbatim>\<open>'N/A'\<close> (\<open>CAC = None\<close>), whatever the spend and the weights. A month that does not
  occur in the hire table, also one that has a spend row, gets no row.
\<close>

theorem zero_hire_month_reports_NA:
  assumes "table_ok table"
    and "Some hm \<in> hire_month ` set hire_df"
    and "hires_in hire_df hm = 0"
  shows "\<exists>rows. cac_rows ops hire_df spend_df table = Inr rows \<and>
           (\<exists>row\<in>set rows. Hire_Month row = hm) \<and>
           (\<forall>row\<in>set rows. Hire_Month row = hm \<longrightarrow> Total_Hires row = 0 \<and> CAC row = None) \<and>
           (\<forall>m. Some m \<notin> hire_month ` set hire_df \<longrightarrow> m \<notin> Hire_Month ` set rows)"
proof -
  from assms(1) obtain rows where rows: "cac_rows ops hire_df spend_df table = Inr rows"
    using cac_rows_returns by blast
  have months: "map Hire_Month rows = hire_months hire_df"
    using rows by (rule cac_rows_rows(1))
  have set_months: "Hire_Month ` set rows = {m. Some m \<in> hire_month ` set hire_df}"
  proof -
    have "Hire_Month ` set rows = set (map Hire_Month rows)" by simp
    also have "\<dots> = set (hire_months hire_df)" by (simp only: months)
    also have "\<dots> = {m. Some m \<in> hire_month ` set hire_df}" by (rule set_hire_months)
    finally show ?thesis .
  qed
  from assms(2) have "hm \<in> Hire_Month ` set rows"
    by (simp only: set_months) simp
  then have "\<exists>row\<in>set rows. Hire_Month row = hm" by auto
  moreover have "\<forall>row\<in>set rows. Hire_Month row = hm \<longrightarrow> Total_Hires row = 0 \<and> CAC row = None"
    using cac_rows_rows(2) [OF rows] assms(3) by auto
  moreover have "\<forall>m. Some m \<notin> hire_month ` set hire_df \<longrightarrow> m \<notin> Hire_Month ` set rows"
    by (simp only: set_months) simp
  ultimately show ?thesis using rows by blast
qed

theorem zero_hire_month_reports_NA_witness:
  "table_ok zero_table \<and>
   Some (month_start 2024 3) \<in> hire_month ` set scenario_D_hires \<and>
   hires_in scenario_D_hires (month_start 2024 3) = 0 \<and>
   (\<exists>rows. cac_rows exact_ops scenario_D_hires scenario_D_spend zero_table = Inr rows \<and>
      (\<exists>row\<in>set rows. Hire_Month row = month_start 2024 3) \<and>
      (\<forall>row\<in>set rows. Hire_Month row = month_start 2024 3 \<longrightarrow>
         Total_Hires row = 0 \<and> CAC row = None) \<and>
      (\<forall>m. Some m \<notin> hire_month ` set scenario_D_hires \<longrightarrow> m \<notin> Hire_Month ` set rows))"
proof -
  have ok: "table_ok zero_table"
    by code_simp
  have present: "Some (month_start 2024 3) \<in> hire_month ` set scenario_D_hires"
    by (simp add: scenario_D_hires_def)
  have zero: "hires_in scenario_D_hires (month_start 2024 3) = 0"
    by (simp add: scenario_D_hires_def hires_in_def int64_def)
  from ok present zero
    zero_hire_month_reports_NA [OF ok present zero, of exact_ops scenario_D_spend]
  show ?thesis
    by (intro conjI)
qed

text \<open>
  Claim C7 as stated fails for a month that is present only through a spend row whose
  weights are zero: it has no hires, and the calculator returns no row for it, so no
  \<^verbatim>\<open>'N/A'\<close> is reported.
\<close>

theorem spend_only_month_has_no_row:
  "month_start 2024 3 \<in> spend_month ` set scenario_D_spend \<and>
   hires_in [] (month_start 2024 3) = 0 \<and>
   attributed_spend exact_ops scenario_D_spend zero_table (month_start 2024 3) = 0 \<and>
   cac_rows exact_ops [] scenario_D_spend zero_table = Inr []"
  by code_simp

text \<open>
  Claim C8: permuting the rows of the hire table or of the spend table does not change
  what \<open>cac_rows\<close> returns, and the rows it returns are in ascending order of hire month.
\<close>

theorem cac_rows_order_independent:
  assumes "mset hire_df' = mset hire_df" and "mset spend_df' = mset spend_df"
  shows "cac_rows ops hire_df' spend_df' table = cac_rows ops hire_df spend_df table \<and>
         (\<forall>rows. cac_rows ops hire_df spend_df table = Inr rows \<longrightarrow>
            sorted (map Hire_Month rows)) \<and>
         (table_ok table \<longrightarrow> (\<exists>rows. cac_rows ops hire_df spend_df table = Inr rows))"
  using cac_rows_perm [OF assms] cac_rows_rows(1) [of ops hire_df spend_df table]
    cac_rows_returns [of table ops hire_df spend_df]
  by (auto simp add: sorted_hire_months)

theorem cac_rows_order_independent_witness:
  "mset (rev two_hire_rows) = mset two_hire_rows \<and>
   mset (rev scenario_C_spend) = mset scenario_C_spend \<and>
   table_ok scenario_C_table \<and>
   cac_rows exact_ops (rev two_hire_rows) (rev scenario_C_spend) scenario_C_table =
     cac_rows exact_ops two_hire_rows scenario_C_spend scenario_C_table \<and>
   (\<exists>rows. cac_rows exact_ops two_hire_rows scenario_C_spend scenario_C_table = Inr rows \<and>
      sorted (map Hire_Month rows))"
proof -
  have ok: "table_ok scenario_C_table"
    by code_simp
  have h: "mset (rev two_hire_rows) = mset two_hire_rows"
    and s: "mset (rev scenario_C_spend) = mset scenario_C_spend"
    by simp_all
  from ok h s show ?thesis
    using cac_rows_order_independent [OF h s, of exact_ops scenario_C_table]
    by blast
qed

text \<open>
  Claim C9: the rows returned by \<open>cac_rows\<close> have pairwise different hire months, and their
  hire months are exactly the (non-null) hire months that occur in the hire table; a month
  that occurs in the spend table only has no row.
\<close>

theorem cac_rows_one_row_per_hire_month:
  "(\<forall>rows. cac_rows ops hire_df spend_df table = Inr rows \<longrightarrow>
      distinct (map Hire_Month rows) \<and>
      set (map Hire_Month rows) = {m. Some m \<in> hire_month ` set hire_df}) \<and>
   (table_ok table \<longrightarrow> (\<exists>rows. cac_rows ops hire_df spend_df table = Inr rows))"
  using cac_rows_rows(1) [of ops hire_df spend_df table]
    cac_rows_returns [of table ops hire_df spend_df]
  by (auto simp only: distinct_hire_months set_hire_months)

theorem cac_rows_one_row_per_hire_month_witness:
  "table_ok scenario_C_table \<and>
   Some (month_start 2024 1) \<notin> hire_month ` set two_hire_rows \<and>
   (\<exists>rows. cac_rows exact_ops two_hire_rows scenario_C_spend scenario_C_table = Inr rows \<and>
      distinct (map Hire_Month rows) \<and>
      set (map Hire_Month rows) = {m. Some m \<in> hire_month ` set two_hire_rows} \<and>
      month_start 2024 1 \<notin> set (map Hire_Month rows))"
proof -
  have ok: "table_ok scenario_C_table"
    by code_simp
  have absent: "Some (month_start 2024 1) \<notin> hire_month ` set two_hire_rows"
    by (simp add: two_hire_rows_def month_start_def)
  from ok absent show ?thesis
    using cac_rows_one_row_per_hire_month
      [of exact_ops two_hire_rows scenario_C_spend scenario_C_table]
    by blast
qed

text \<open>
  Claim C10, amended. If every row of the hire table has at least 1 hire and the hires of
  every month add up to less than \<open>2 ^ 63\<close> (the int64 sum of line 177 does not wrap around),
  then every row that \<open>cac_rows\<close> returns has a positive number of hires and a numeric cost per
  hire (never \<^verbatim>\<open>'N/A'\<close>).
\<close>

theorem positive_hires_never_NA:
  assumes "\<forall>r\<in>set hire_df. 1 \<le> hires r"
    and "\<forall>hm. hires_sum hire_df hm < 2 ^ 63"
  shows "(\<forall>rows. cac_rows ops hire_df spend_df table = Inr rows \<longrightarrow>
            (\<forall>row\<in>set rows. 0 < Total_Hires row \<and> CAC row \<noteq> None)) \<and>
         (table_ok table \<longrightarrow> (\<exists>rows. cac_rows ops hire_df spend_df table = Inr rows))"
proof -
  have "0 < Total_Hires row \<and> CAC row \<noteq> None"
    if rows: "cac_rows ops hire_df spend_df table = Inr rows" and row: "row \<in> set rows"
    for rows row
  proof -
    from row have "Hire_Month row \<in> set (map Hire_Month rows)" by simp
    then have "Hire_Month row \<in> set (hire_months hire_df)"
      by (simp only: cac_rows_rows(1) [OF rows])
    moreover from assms(2) have "hires_sum hire_df (Hire_Month row) < 2 ^ 63" ..
    ultimately have "0 < hires_in hire_df (Hire_Month row)"
      using assms(1) by (intro hires_in_positive)
    with cac_rows_rows(2) [OF rows] row show ?thesis by auto
  qed
  then show ?thesis using cac_rows_returns [of table ops hire_df spend_df] by blast
qed

theorem positive_hires_never_NA_witness:
  "list_all (\<lambda>r. 1 \<le> hires r) two_hire_rows \<and>
   hires_sum two_hire_rows (month_start 2024 2) = 6 \<and>
   hires_sum two_hire_rows (month_start 2024 3) = 10 \<and>
   table_ok scenario_C_table \<and>
   (\<exists>rows. cac_rows exact_ops two_hire_rows scenario_C_spend scenario_C_table = Inr rows \<and>
      (\<forall>row\<in>set rows. 0 < Total_Hires row \<and> CAC row \<noteq> None))"
proof -
  have ok: "table_ok scenario_C_table"
    by code_simp
  have pos: "\<forall>r\<in>set two_hire_rows. 1 \<le> hires r"
    by (simp add: two_hire_rows_def)
  have small: "\<forall>hm. hires_sum two_hire_rows hm < 2 ^ 63"
    by (simp add: two_hire_rows_def hires_sum_def)
  have sums: "hires_sum two_hire_rows (month_start 2024 2) = 6"
    "hires_sum two_hire_rows (month_start 2024 3) = 10"
    by (simp_all add: two_hire_rows_def hires_sum_def month_start_def)
  from pos have all: "list_all (\<lambda>r. 1 \<le> hires r) two_hire_rows"
    by (simp only: list_all_iff)
  from positive_hires_never_NA [OF pos small, of exact_ops scenario_C_spend scenario_C_table] ok
  have "\<exists>rows. cac_rows exact_ops two_hire_rows scenario_C_spend scenario_C_table = Inr rows \<and>
      (\<forall>row\<in>set rows. 0 < Total_Hires row \<and> CAC row \<noteq> None)"
    by blast
  with all sums ok show ?thesis
    by (intro conjI)
qed

text \<open>
  Claim C10 as stated fails when the int64 sum wraps around: two rows of one month with
  \<open>2 ^ 62\<close> hires each have at least 1 hire, yet the summed hires are \<open>- 2 ^ 63\<close> and the row
  reports \<^verbatim>\<open>'N/A'\<close>.
\<close>

theorem int64_overflow_reports_NA:
  "list_all (\<lambda>r. 1 \<le> hires r) overflow_rows \<and>
   cac_rows exact_ops overflow_rows [] Map.empty =
     Inr [\<lparr>Hire_Month = month_start 2024 3, Total_Hires = - (2 ^ 63),
           Weighted_Spend = 0, CAC = None\<rparr>]"
  by code_simp

end
